theory Spec2Isabelle
  imports Complex_Main
begin

section \<open>Values of the source language\<close>

text \<open>
  The fields typed \<^verbatim>\<open>number\<close> in \<^verbatim>\<open>renderData.ts\<close> hold IEEE doubles. The class only
  stores them and compares them with \<^verbatim>\<open>!==\<close>, so a number is a real, one of the two
  infinities, the negative zero or NaN, and \<^verbatim>\<open>!==\<close> is written out: NaN differs from
  everything, itself included, and the two zeros do not differ.
\<close>

datatype number = Num real | NegZero | PosInf | NegInf | NaN

fun unsigned_zero :: "number \<Rightarrow> number" where
  "unsigned_zero NegZero = Num 0"
| "unsigned_zero a = a"

definition strict_neq :: "number \<Rightarrow> number \<Rightarrow> bool" where
  "strict_neq a b = (a = NaN \<or> b = NaN \<or> unsigned_zero a \<noteq> unsigned_zero b)"

text \<open>
  A JavaScript array is a list whose slots may be holes: \<open>None\<close> is a hole, \<open>Some v\<close> an
  element. \<^verbatim>\<open>data[i] = v\<close> replaces slot \<open>i\<close>, appends when \<open>i\<close> is the length, and
  pads with holes when \<open>i\<close> lies beyond it. \<^verbatim>\<open>data.splice(i, 1)\<close> deletes slot \<open>i\<close> and
  deletes nothing when \<open>i\<close> is not an index of the array.
\<close>

definition array_assign :: "'a option list \<Rightarrow> nat \<Rightarrow> 'a \<Rightarrow> 'a option list" where
  "array_assign data i v =
     (if i < length data then data[i := Some v]
      else data @ replicate (i - length data) None @ [Some v])"

definition splice1 :: "'a list \<Rightarrow> nat \<Rightarrow> 'a list" where
  "splice1 data i = take i data @ drop (Suc i) data"

section \<open>The vertex record\<close>

text \<open>
  Modelled from the spec: the colour type of \<^verbatim>\<open>core/value-types\<close> is not among the
  sources. The spec describes it as a fixed-size RGBA value with a well-known default
  white.
\<close>

datatype Color = RGBA nat nat nat nat

text \<open>
  Modelled from the spec: the constant \<^verbatim>\<open>Color.WHITE\<close> of the missing colour type, the
  default white, with every channel at its maximum.
\<close>

definition WHITE :: Color where
  "WHITE = RGBA 255 255 255 255"

record IRenderData =
  x :: number
  y :: number
  z :: number
  u :: number
  v :: number
  color :: Color

text \<open>\<^verbatim>\<open>new IRenderData()\<close>: the field initialisers of the class.\<close>

definition new_IRenderData :: IRenderData where
  "new_IRenderData = \<lparr>x = Num 0, y = Num 0, z = Num 0, u = Num 0, v = Num 0, color = WHITE\<rparr>"

section \<open>RenderData\<close>

text \<open>
  The fields of \<^verbatim>\<open>BaseRenderData\<close> and \<^verbatim>\<open>RenderData\<close>. The material is an opaque
  reference or null; \<open>datas\<close> and \<open>indices\<close> are the private arrays \<^verbatim>\<open>_datas\<close> and
  \<^verbatim>\<open>_indices\<close>, and \<open>pivotX\<close>, \<open>pivotY\<close>, \<open>width\<close>, \<open>height\<close> the private numbers of the
  same names.
\<close>

record ('m, 'v) RenderData =
  material :: "'m option"
  vertexCount :: number
  indiceCount :: number
  uvDirty :: bool
  vertDirty :: bool
  datas :: "'v option list"
  indices :: "number option list"
  pivotX :: number
  pivotY :: number
  width :: number
  height :: number

text \<open>\<^verbatim>\<open>new RenderData()\<close>: the field initialisers of both classes.\<close>

definition new_RenderData :: "('m, 'v) RenderData" where
  "new_RenderData =
     \<lparr>material = None, vertexCount = Num 0, indiceCount = Num 0,
      uvDirty = True, vertDirty = True, datas = [], indices = [],
      pivotX = Num 0, pivotY = Num 0, width = Num 0, height = Num 0\<rparr>"

definition dataLength :: "('m, 'v) RenderData \<Rightarrow> nat" where
  "dataLength rd = length (datas rd)"

subsection \<open>The \<^verbatim>\<open>dataLength\<close> setter\<close>

text \<open>
  The recycling pool \<^verbatim>\<open>_dataPool\<close> is an instance of a class that is not among the
  sources. The setter calls two of its methods, \<^verbatim>\<open>add()\<close> and \<^verbatim>\<open>removeAt(i)\<close>; they
  are parameters here, each a function on the state \<open>'p\<close> of the pool, so that what is
  proved of the setter holds for every pool. The two loops of the setter are \<open>grow\<close> and
  \<open>shrink\<close>; both start at \<^verbatim>\<open>value\<close>, the length before the call. The length assigned
  is a natural number.
\<close>

function grow :: "('p \<Rightarrow> 'v \<times> 'p) \<Rightarrow> nat \<Rightarrow> nat \<Rightarrow> 'v option list \<Rightarrow> 'p \<Rightarrow> 'v option list \<times> 'p" where
  "grow add len i data pool =
     (if i < len
      then (case add pool of (rec, pool') \<Rightarrow> grow add len (Suc i) (array_assign data i rec) pool')
      else (data, pool))"
  by pat_completeness auto
termination
  by (relation "measure (\<lambda>(add, len, i, data, pool). len - i)") auto

function shrink :: "(nat \<Rightarrow> 'p \<Rightarrow> 'p) \<Rightarrow> nat \<Rightarrow> nat \<Rightarrow> 'v option list \<Rightarrow> 'p \<Rightarrow> 'v option list \<times> 'p" where
  "shrink removeAt len i data pool =
     (if i > len
      then shrink removeAt len (i - 1) (splice1 data i) (removeAt i pool)
      else (data, pool))"
  by pat_completeness auto
termination
  by (relation "measure (\<lambda>(removeAt, len, i, data, pool). i)") auto

definition set_dataLength ::
  "('p \<Rightarrow> 'v \<times> 'p) \<Rightarrow> (nat \<Rightarrow> 'p \<Rightarrow> 'p) \<Rightarrow> nat \<Rightarrow> ('m, 'v) RenderData \<times> 'p \<Rightarrow> ('m, 'v) RenderData \<times> 'p" where
  "set_dataLength add removeAt len s =
     (case s of (rd, pool) \<Rightarrow>
        if length (datas rd) \<noteq> len
        then (let value = length (datas rd) in
              case grow add len value (datas rd) pool of (data1, pool1) \<Rightarrow>
              case shrink removeAt len value data1 pool1 of (data2, pool2) \<Rightarrow>
                (rd\<lparr>datas := data2\<rparr>, pool2))
        else (rd, pool))"

declare grow.simps [simp del] shrink.simps [simp del]

text \<open>
  \<open>adds add k pool\<close> is the outcome of \<open>k\<close> successive calls of \<^verbatim>\<open>add()\<close>: the records
  returned, in order, and the state of the pool after the last call. It serves to say what
  the first loop of the setter does.
\<close>

fun adds :: "('p \<Rightarrow> 'v \<times> 'p) \<Rightarrow> nat \<Rightarrow> 'p \<Rightarrow> 'v list \<times> 'p" where
  "adds add 0 pool = ([], pool)"
| "adds add (Suc k) pool =
     (case add pool of (rec, pool') \<Rightarrow>
      case adds add k pool' of (recs, pool'') \<Rightarrow> (rec # recs, pool''))"

subsection \<open>\<^verbatim>\<open>updateSizeNPivot\<close> and \<^verbatim>\<open>clear\<close>\<close>

definition updateSizeNPivot ::
  "number \<Rightarrow> number \<Rightarrow> number \<Rightarrow> number \<Rightarrow> ('m, 'v) RenderData \<Rightarrow> ('m, 'v) RenderData" where
  "updateSizeNPivot w h px py rd =
     (if strict_neq w (width rd) \<or> strict_neq h (height rd) \<or>
         strict_neq px (pivotX rd) \<or> strict_neq py (pivotY rd)
      then rd\<lparr>width := w, height := h, pivotX := px, pivotY := py, vertDirty := True\<rparr>
      else rd)"

definition clear :: "('m, 'v) RenderData \<Rightarrow> ('m, 'v) RenderData" where
  "clear rd =
     rd\<lparr>datas := [], indices := [],
        pivotX := Num 0, pivotY := Num 0, width := Num 0, height := Num 0,
        uvDirty := True, vertDirty := True,
        material := None, vertexCount := Num 0, indiceCount := Num 0\<rparr>"

section \<open>The pool of RenderData instances\<close>

text \<open>
  The class \<^verbatim>\<open>RecyclePool\<close> of \<^verbatim>\<open>3d/memop/recycle-pool\<close> is not among the sources; the
  definitions of this section that model it follow the spec, which describes a
  factory-based pool with \<^verbatim>\<open>add\<close>, \<^verbatim>\<open>removeAt\<close>, \<^verbatim>\<open>length\<close> and access to its backing
  storage.
\<close>

text \<open>
  Modelled from the spec: the compaction strategy of the missing \<^verbatim>\<open>RecyclePool.removeAt\<close>.
  The spec leaves it open between shifting the later elements left and swapping the
  removed element with the last, so it is a parameter of the removal.
\<close>

datatype compaction = ShiftLeft | SwapWithLast

text \<open>
  Modelled from the spec: the state of the missing class \<^verbatim>\<open>RecyclePool\<close>. Its backing
  storage holds the live elements, \<open>live\<close>, followed by its spare capacity, \<open>spare\<close>:
  objects that were released, which a later acquisition may reuse.
\<close>

record 'a RecyclePool =
  live :: "'a list"
  spare :: "'a list"

text \<open>
  Modelled from the spec: the missing getter \<^verbatim>\<open>RecyclePool.length\<close>, the size of the pool,
  which is the number of live elements.
\<close>

definition pool_length :: "'a RecyclePool \<Rightarrow> nat" where
  "pool_length p = length (live p)"

text \<open>
  Modelled from the spec: the missing getter \<^verbatim>\<open>RecyclePool.data\<close>, the indexable backing
  storage.
\<close>

definition pool_data :: "'a RecyclePool \<Rightarrow> 'a list" where
  "pool_data p = live p @ spare p"

text \<open>
  Modelled from the spec: the missing method \<^verbatim>\<open>RecyclePool.add\<close>. It returns a reused
  object, or one made by the factory \<open>fn\<close> when the spare capacity is exhausted; the
  object it returns becomes the last live element. The factory may allocate, so it acts
  on a state \<open>'h\<close>.
\<close>

definition RecyclePool_add :: "('h \<Rightarrow> 'a \<times> 'h) \<Rightarrow> 'a RecyclePool \<Rightarrow> 'h \<Rightarrow> 'a \<times> 'a RecyclePool \<times> 'h" where
  "RecyclePool_add fn p h =
     (case spare p of
        [] \<Rightarrow> (case fn h of (obj, h') \<Rightarrow> (obj, p\<lparr>live := live p @ [obj]\<rparr>, h'))
      | obj # rest \<Rightarrow> (obj, p\<lparr>live := live p @ [obj], spare := rest\<rparr>, h))"

text \<open>
  Modelled from the spec: the missing method \<^verbatim>\<open>RecyclePool.removeAt\<close>. It removes the
  element at the given position from the live elements and keeps it as spare capacity for
  the next acquisition. The spec calls a release at a stale or out-of-range position
  undefined; that is \<open>None\<close> here.
\<close>

definition RecyclePool_removeAt :: "compaction \<Rightarrow> nat \<Rightarrow> 'a RecyclePool \<Rightarrow> 'a RecyclePool option" where
  "RecyclePool_removeAt strategy idx p =
     (if idx < length (live p)
      then Some (case strategy of
                   ShiftLeft \<Rightarrow>
                     p\<lparr>live := take idx (live p) @ drop (Suc idx) (live p),
                       spare := live p ! idx # spare p\<rparr>
                 | SwapWithLast \<Rightarrow>
                     p\<lparr>live := butlast ((live p)[idx := last (live p)]),
                       spare := live p ! idx # spare p\<rparr>)
      else None)"

text \<open>
  Objects are references in the source: the pool, a handle and a consumer may hold the
  same instance. The object store maps a reference to the state of its instance;
  \<open>next_ref\<close> is the reference that the next \<^verbatim>\<open>new RenderData()\<close> yields. The module
  state is the store together with \<^verbatim>\<open>_pool\<close>.
\<close>

record ('m, 'v) module_state =
  objects :: "nat \<Rightarrow> ('m, 'v) RenderData"
  next_ref :: nat
  renderDataPool :: "nat RecyclePool"

text \<open>The factory given to \<^verbatim>\<open>_pool\<close>: \<^verbatim>\<open>() => new RenderData()\<close>.\<close>

definition factory :: "('m, 'v) module_state \<Rightarrow> nat \<times> ('m, 'v) module_state" where
  "factory w = (next_ref w, w\<lparr>objects := (objects w)(next_ref w := new_RenderData), next_ref := Suc (next_ref w)\<rparr>)"

record handle =
  pooID :: nat
  data :: nat

datatype error = TypeError | UndefinedRelease

definition RenderData_add :: "('m, 'v) module_state \<Rightarrow> handle \<times> ('m, 'v) module_state" where
  "RenderData_add w =
     (case RecyclePool_add factory (renderDataPool w) w of
        (obj, p', w') \<Rightarrow>
          (\<lparr>pooID = pool_length p' - 1, data = obj\<rparr>, w'\<lparr>renderDataPool := p'\<rparr>))"

text \<open>
  \<^verbatim>\<open>_pool.data[idx].clear()\<close> reads the backing storage; beyond its end the read is
  \<^verbatim>\<open>undefined\<close> and the method call raises a TypeError.
\<close>

definition RenderData_remove :: "compaction \<Rightarrow> nat \<Rightarrow> ('m, 'v) module_state \<Rightarrow> error + ('m, 'v) module_state" where
  "RenderData_remove strategy idx w =
     (if idx < length (pool_data (renderDataPool w))
      then (let ref = pool_data (renderDataPool w) ! idx;
                w1 = w\<lparr>objects := (objects w)(ref := clear (objects w ref))\<rparr>
            in case RecyclePool_removeAt strategy idx (renderDataPool w1) of
                 None \<Rightarrow> Inl UndefinedRelease
               | Some p' \<Rightarrow> Inr (w1\<lparr>renderDataPool := p'\<rparr>))
      else Inl TypeError)"

section \<open>Dirty flags and reachable states\<close>

text \<open>An operation that takes \<open>rd\<close> to \<open>rd'\<close> clears no dirty flag that was set.\<close>

definition keeps_dirty :: "('m, 'v) RenderData \<Rightarrow> ('m, 'v) RenderData \<Rightarrow> bool" where
  "keeps_dirty rd rd' = ((uvDirty rd \<longrightarrow> uvDirty rd') \<and> (vertDirty rd \<longrightarrow> vertDirty rd'))"

text \<open>
  The states an instance can reach: from \<^verbatim>\<open>new RenderData()\<close> by the setter,
  \<^verbatim>\<open>updateSizeNPivot\<close> and \<^verbatim>\<open>clear\<close>, by assignments to the public fields, and by writes
  to the array that the getter \<^verbatim>\<open>datas\<close> hands out. The class has no other member that
  writes a field.
\<close>

inductive reachable :: "('p \<Rightarrow> 'v \<times> 'p) \<Rightarrow> (nat \<Rightarrow> 'p \<Rightarrow> 'p) \<Rightarrow> ('m, 'v) RenderData \<Rightarrow> bool"
  for add :: "'p \<Rightarrow> 'v \<times> 'p" and removeAt :: "nat \<Rightarrow> 'p \<Rightarrow> 'p" where
  fresh: "reachable add removeAt new_RenderData"
| resized: "reachable add removeAt rd \<Longrightarrow> reachable add removeAt (fst (set_dataLength add removeAt n (rd, pool)))"
| updated: "reachable add removeAt rd \<Longrightarrow> reachable add removeAt (updateSizeNPivot w h px py rd)"
| cleared: "reachable add removeAt rd \<Longrightarrow> reachable add removeAt (clear rd)"
| set_uvDirty: "reachable add removeAt rd \<Longrightarrow> reachable add removeAt (rd\<lparr>uvDirty := flag\<rparr>)"
| set_vertDirty: "reachable add removeAt rd \<Longrightarrow> reachable add removeAt (rd\<lparr>vertDirty := flag\<rparr>)"
| set_material: "reachable add removeAt rd \<Longrightarrow> reachable add removeAt (rd\<lparr>material := mat\<rparr>)"
| set_vertexCount: "reachable add removeAt rd \<Longrightarrow> reachable add removeAt (rd\<lparr>vertexCount := cnt\<rparr>)"
| set_indiceCount: "reachable add removeAt rd \<Longrightarrow> reachable add removeAt (rd\<lparr>indiceCount := cnt\<rparr>)"
| set_datas: "reachable add removeAt rd \<Longrightarrow> reachable add removeAt (rd\<lparr>datas := ds\<rparr>)"

section \<open>Example states\<close>

text \<open>
  Concrete inputs at which the theorems below are instantiated: a pool of vertex records
  without state that hands out a default record at every call, and three states of the
  module with one object, which is live or spare, and whose \<open>uvDirty\<close> a consumer has
  reset or not.
\<close>

abbreviation default_add :: "unit \<Rightarrow> IRenderData \<times> unit" where
  "default_add \<equiv> \<lambda>pl. (new_IRenderData, pl)"

abbreviation no_removeAt :: "nat \<Rightarrow> unit \<Rightarrow> unit" where
  "no_removeAt \<equiv> \<lambda>i pl. pl"

abbreviation fresh_instance :: "(unit, IRenderData) RenderData" where
  "fresh_instance \<equiv> new_RenderData"

abbreviation one_live :: "(unit, IRenderData) module_state" where
  "one_live \<equiv>
     \<lparr>objects = (\<lambda>ref. new_RenderData), next_ref = 1,
      renderDataPool = \<lparr>live = [0], spare = []\<rparr>\<rparr>"

abbreviation one_live_used :: "(unit, IRenderData) module_state" where
  "one_live_used \<equiv>
     \<lparr>objects = (\<lambda>ref. new_RenderData\<lparr>uvDirty := False\<rparr>), next_ref = 1,
      renderDataPool = \<lparr>live = [0], spare = []\<rparr>\<rparr>"

abbreviation one_spare_used :: "(unit, IRenderData) module_state" where
  "one_spare_used \<equiv>
     \<lparr>objects = (\<lambda>ref. new_RenderData\<lparr>uvDirty := False\<rparr>), next_ref = 1,
      renderDataPool = \<lparr>live = [], spare = [0]\<rparr>\<rparr>"

section \<open>The resize operation\<close>

text \<open>
  The first loop, started at the length of the array, appends what the pool hands out,
  one record for each index from the old length up to the new one.
\<close>

lemma grow_eq:
  "i = length ds \<Longrightarrow> grow add len i ds p =
     (ds @ map Some (fst (adds add (len - i) p)), snd (adds add (len - i) p))"
proof (induction add len i ds p rule: grow.induct)
  case (1 add len i ds p)
  show ?case
  proof (cases "i < len")
    case True
    obtain rec p' where ap: "add p = (rec, p')" by (cases "add p")
    have len: "len - i = Suc (len - Suc i)" using True by simp
    have a: "adds add (len - i) p =
        (rec # fst (adds add (len - Suc i) p'), snd (adds add (len - Suc i) p'))"
      unfolding len by (simp add: ap split_beta)
    have asg: "array_assign ds i rec = ds @ [Some rec]"
      using "1.prems" by (simp add: array_assign_def)
    have "grow add len i ds p = grow add len (Suc i) (array_assign ds i rec) p'"
      using True ap by (simp add: grow.simps[of add len i])
    also have "\<dots> = (array_assign ds i rec @ map Some (fst (adds add (len - Suc i) p')),
                      snd (adds add (len - Suc i) p'))"
    proof (rule "1.IH"[OF True ap[symmetric]])
      show "Suc i = length (array_assign ds i rec)"
        unfolding asg using "1.prems" by simp
    qed
    finally show ?thesis
      by (simp add: a asg)
  next
    case False
    then show ?thesis by (simp add: grow.simps[of add len i])
  qed
qed

text \<open>
  The second loop starts at \<^verbatim>\<open>value\<close>, which is one past the last index. Its first
  \<^verbatim>\<open>splice\<close> therefore deletes nothing, and each later one deletes the last element:
  of an array of length \<open>i\<close> the loop keeps the first \<open>len + 1\<close> elements, while the pool
  is asked to release the positions \<open>i\<close>, \<open>i - 1\<close>, ..., \<open>len + 1\<close>.
\<close>

lemma shrink_fst:
  "length ds \<le> Suc i \<Longrightarrow> fst (shrink rm len i ds p) = take (Suc len) ds"
proof (induction rm len i ds p rule: shrink.induct)
  case (1 rm len i ds p)
  show ?case
  proof (cases "i > len")
    case True
    have s: "splice1 ds i = take i ds" using "1.prems" by (simp add: splice1_def)
    have "fst (shrink rm len i ds p) = fst (shrink rm len (i - 1) (splice1 ds i) (rm i p))"
      using True by (simp add: shrink.simps[of rm len i])
    also have "\<dots> = take (Suc len) (splice1 ds i)"
      using "1.IH"[OF True] True "1.prems" by (simp add: s)
    finally show ?thesis using True by (simp add: s min_def)
  next
    case False
    then show ?thesis using "1.prems" by (simp add: shrink.simps[of rm len i])
  qed
qed

lemma shrink_snd:
  "snd (shrink rm len i ds p) = fold rm (rev [Suc len..<Suc i]) p"
proof (induction rm len i ds p rule: shrink.induct)
  case (1 rm len i ds p)
  show ?case
  proof (cases "i > len")
    case True
    then obtain j where j: "i = Suc j" by (cases i) auto
    have "snd (shrink rm len i ds p) = snd (shrink rm len (i - 1) (splice1 ds i) (rm i p))"
      using True by (simp add: shrink.simps[of rm len i])
    also have "\<dots> = fold rm (rev [Suc len..<Suc (i - 1)]) (rm i p)"
      using "1.IH"[OF True] by simp
    finally show ?thesis using True j by simp
  next
    case False
    then show ?thesis by (simp add: shrink.simps[of rm len i])
  qed
qed

text \<open>The setter in closed form, for every pool.\<close>

lemma set_dataLength_eq:
  "set_dataLength add rm n (rd, p) =
     (if length (datas rd) < n
      then (rd\<lparr>datas := datas rd @ map Some (fst (adds add (n - length (datas rd)) p))\<rparr>,
            snd (adds add (n - length (datas rd)) p))
      else if n < length (datas rd)
      then (rd\<lparr>datas := take (Suc n) (datas rd)\<rparr>, fold rm (rev [Suc n..<Suc (length (datas rd))]) p)
      else (rd, p))"
proof -
  consider (gt) "length (datas rd) < n" | (lt) "n < length (datas rd)" | (eq) "n = length (datas rd)"
    by linarith
  then show ?thesis
  proof cases
    case gt
    have g: "grow add n (length (datas rd)) (datas rd) p =
       (datas rd @ map Some (fst (adds add (n - length (datas rd)) p)), snd (adds add (n - length (datas rd)) p))"
      by (rule grow_eq) simp
    have s: "shrink rm n (length (datas rd)) ds q = (ds, q)" for ds :: "'b option list" and q
      using gt by (simp add: shrink.simps[of rm n "length (datas rd)"])
    show ?thesis using gt by (simp add: set_dataLength_def Let_def g s)
  next
    case lt
    have g: "grow add n (length (datas rd)) (datas rd) p = (datas rd, p)"
      using lt by (simp add: grow.simps[of add n "length (datas rd)"])
    have s: "shrink rm n (length (datas rd)) (datas rd) p =
        (take (Suc n) (datas rd), fold rm (rev [Suc n..<Suc (length (datas rd))]) p)"
      using shrink_fst[of "datas rd" "length (datas rd)" rm n p] shrink_snd[of rm n "length (datas rd)" "datas rd" p]
      by (simp add: prod_eq_iff)
    show ?thesis using lt by (simp add: set_dataLength_def Let_def g s)
  next
    case eq
    then show ?thesis by (simp add: set_dataLength_def)
  qed
qed

lemma length_adds: "length (fst (adds add k p)) = k"
  by (induction k arbitrary: p) (simp_all add: split_beta)

lemma dataLength_set_dataLength:
  "dataLength (fst (set_dataLength add rm n (rd, p))) = (if n < dataLength rd then Suc n else n)"
  by (auto simp: set_dataLength_eq dataLength_def length_adds)

text \<open>
  When the pool hands out a record in default state at every call, as the spec requires
  of the vertex-record pool, each appended record is in default state.
\<close>

lemma adds_replicate: "(\<And>q. fst (add q) = d) \<Longrightarrow> fst (adds add k p) = replicate k d"
  by (induction k arbitrary: p) (simp_all add: split_beta)

text \<open>
  C1 (after \<^verbatim>\<open>dataLength = N\<close> the length of \<^verbatim>\<open>datas\<close> is exactly \<open>N\<close>, also when
  shrinking). The code does not do this when it shrinks: a fresh instance resized to 3 and
  then to 1 is left with 2 records, whatever the pool does.
\<close>

theorem dataLength_3_then_1_is_2:
  "dataLength (fst (set_dataLength add rm 1
     (set_dataLength add rm 3 (new_RenderData :: ('m, 'v) RenderData, p :: 'p)))) = 2"
proof -
  let ?s = "set_dataLength add rm 3 (new_RenderData :: ('m, 'v) RenderData, p)"
  have "dataLength (new_RenderData :: ('m, 'v) RenderData) = 0"
    by (simp add: dataLength_def new_RenderData_def)
  then have three: "dataLength (fst ?s) = 3"
    by (simp add: dataLength_set_dataLength)
  have "dataLength (fst (set_dataLength add rm 1 (fst ?s, snd ?s))) =
      (if 1 < dataLength (fst ?s) then Suc 1 else 1)"
    by (rule dataLength_set_dataLength)
  then show ?thesis by (simp add: three)
qed

text \<open>
  C2 (growing from \<open>M\<close> to \<open>N\<close> appends \<open>N - M\<close> records from the pool; shrinking removes
  \<open>M - N\<close> records and releases each to the pool). The growing half is
  \<open>set_dataLength_eq\<close> with \<open>length_adds\<close> and \<open>adds_replicate\<close>. The shrinking half fails
  in the code: resizing three records to 1 removes one record, the last, and asks the pool
  to release positions 3 and 2, of which 3 is not an index of the array.
\<close>

theorem shrink_3_to_1_removes_one_releases_two:
  "set_dataLength add rm 1 (rd\<lparr>datas := [Some r0, Some r1, Some r2]\<rparr>, p) =
     (rd\<lparr>datas := [Some r0, Some r1]\<rparr>, rm 2 (rm 3 p))"
  by (simp add: set_dataLength_eq upt_rec numeral_2_eq_2 numeral_3_eq_3)

text \<open>
  C7 (the resize operation mutates only \<^verbatim>\<open>datas\<close>): for every instance, every \<open>n\<close> and
  every pool, the setter leaves both dirty flags, \<open>indices\<close>, the pivot, the size, the
  material and the two counts as they were; the instance after the call is the instance
  before it with another \<open>datas\<close>.
\<close>

theorem set_dataLength_frame:
  "uvDirty (fst (set_dataLength add rm n (rd, p))) = uvDirty rd \<and>
   vertDirty (fst (set_dataLength add rm n (rd, p))) = vertDirty rd \<and>
   indices (fst (set_dataLength add rm n (rd, p))) = indices rd \<and>
   pivotX (fst (set_dataLength add rm n (rd, p))) = pivotX rd \<and>
   pivotY (fst (set_dataLength add rm n (rd, p))) = pivotY rd \<and>
   width (fst (set_dataLength add rm n (rd, p))) = width rd \<and>
   height (fst (set_dataLength add rm n (rd, p))) = height rd \<and>
   material (fst (set_dataLength add rm n (rd, p))) = material rd \<and>
   vertexCount (fst (set_dataLength add rm n (rd, p))) = vertexCount rd \<and>
   indiceCount (fst (set_dataLength add rm n (rd, p))) = indiceCount rd \<and>
   fst (set_dataLength add rm n (rd, p)) = rd\<lparr>datas := datas (fst (set_dataLength add rm n (rd, p)))\<rparr>"
  by (simp add: set_dataLength_eq)

section \<open>Size, pivot and clearing\<close>

lemma strict_neq_refl: "strict_neq n n = (n = NaN)"
  by (simp add: strict_neq_def)

text \<open>
  C3 (\<^verbatim>\<open>updateSizeNPivot\<close>): when one of the four arguments differs from the stored
  value, in the sense of the comparison \<^verbatim>\<open>!==\<close> that the code makes, the call stores all
  four and sets \<open>vertDirty\<close>, and changes nothing else; when none differs the call changes
  nothing at all. A second call with the same arguments changes nothing, so it leaves
  \<open>vertDirty\<close> as the first call left it, and no call changes \<open>uvDirty\<close>.
\<close>

theorem updateSizeNPivot_effect:
  "(strict_neq w (width rd) \<or> strict_neq h (height rd) \<or>
    strict_neq px (pivotX rd) \<or> strict_neq py (pivotY rd) \<longrightarrow>
      updateSizeNPivot w h px py rd =
        rd\<lparr>width := w, height := h, pivotX := px, pivotY := py, vertDirty := True\<rparr>) \<and>
   (\<not> (strict_neq w (width rd) \<or> strict_neq h (height rd) \<or>
        strict_neq px (pivotX rd) \<or> strict_neq py (pivotY rd)) \<longrightarrow>
      updateSizeNPivot w h px py rd = rd) \<and>
   updateSizeNPivot w h px py (updateSizeNPivot w h px py rd) = updateSizeNPivot w h px py rd \<and>
   uvDirty (updateSizeNPivot w h px py rd) = uvDirty rd"
  by (simp add: updateSizeNPivot_def strict_neq_refl)

theorem updateSizeNPivot_effect_witness:
  "strict_neq (Num 10) (width fresh_instance) \<and>
   updateSizeNPivot (Num 10) (Num 10) (Num 0) (Num 0) fresh_instance =
     fresh_instance\<lparr>width := Num 10, height := Num 10, pivotX := Num 0, pivotY := Num 0,
                    vertDirty := True\<rparr> \<and>
   \<not> strict_neq (Num 0) (width (fresh_instance\<lparr>vertDirty := False\<rparr>)) \<and>
   \<not> strict_neq (Num 0) (height (fresh_instance\<lparr>vertDirty := False\<rparr>)) \<and>
   \<not> strict_neq (Num 0) (pivotX (fresh_instance\<lparr>vertDirty := False\<rparr>)) \<and>
   \<not> strict_neq (Num 0) (pivotY (fresh_instance\<lparr>vertDirty := False\<rparr>)) \<and>
   updateSizeNPivot (Num 0) (Num 0) (Num 0) (Num 0) (fresh_instance\<lparr>vertDirty := False\<rparr>) =
     fresh_instance\<lparr>vertDirty := False\<rparr>"
  using updateSizeNPivot_effect [where w = "Num 10" and h = "Num 10" and px = "Num 0" and py = "Num 0"
                                   and rd = fresh_instance]
        updateSizeNPivot_effect [where w = "Num 0" and h = "Num 0" and px = "Num 0" and py = "Num 0"
                                   and rd = "fresh_instance\<lparr>vertDirty := False\<rparr>"]
  by (simp add: new_RenderData_def strict_neq_def)

text \<open>
  C4 (\<^verbatim>\<open>clear\<close>): from every state, \<^verbatim>\<open>clear()\<close> leaves \<open>datas\<close> and \<open>indices\<close> empty, the
  pivot and the size zero, both dirty flags set, no material and both counts zero; a
  second call changes nothing.
\<close>

theorem clear_effect:
  "datas (clear rd) = [] \<and> dataLength (clear rd) = 0 \<and> indices (clear rd) = [] \<and>
   pivotX (clear rd) = Num 0 \<and> pivotY (clear rd) = Num 0 \<and>
   width (clear rd) = Num 0 \<and> height (clear rd) = Num 0 \<and>
   uvDirty (clear rd) \<and> vertDirty (clear rd) \<and> material (clear rd) = None \<and>
   vertexCount (clear rd) = Num 0 \<and> indiceCount (clear rd) = Num 0 \<and>
   clear (clear rd) = clear rd"
  by (simp add: clear_def dataLength_def)

text \<open>A cleared instance is in the state of a fresh one.\<close>

lemma clear_eq_new: "clear (rd :: ('m, 'v) RenderData) = new_RenderData"
  by (simp add: clear_def new_RenderData_def)

section \<open>Acquisition and release\<close>

lemma RenderData_add_reuse:
  "spare (renderDataPool st) = ref # rest \<Longrightarrow>
   RenderData_add st =
     (\<lparr>pooID = length (live (renderDataPool st)), data = ref\<rparr>,
      st\<lparr>renderDataPool := \<lparr>live = live (renderDataPool st) @ [ref], spare = rest\<rparr>\<rparr>)"
  by (simp add: RenderData_add_def RecyclePool_add_def pool_length_def)

lemma RenderData_add_fresh:
  "spare (renderDataPool st) = [] \<Longrightarrow>
   RenderData_add st =
     (\<lparr>pooID = length (live (renderDataPool st)), data = next_ref st\<rparr>,
      st\<lparr>objects := (objects st)(next_ref st := new_RenderData),
         next_ref := Suc (next_ref st),
         renderDataPool := \<lparr>live = live (renderDataPool st) @ [next_ref st], spare = []\<rparr>\<rparr>)"
  by (simp add: RenderData_add_def RecyclePool_add_def pool_length_def factory_def)

lemma removeAt_live:
  "idx < length (live p) \<Longrightarrow>
   \<exists>p'. RecyclePool_removeAt strategy idx p = Some p' \<and>
        spare p' = live p ! idx # spare p \<and> length (live p') = length (live p) - 1"
  by (cases strategy) (simp_all add: RecyclePool_removeAt_def)

lemma RenderData_remove_live:
  assumes "idx < pool_length (renderDataPool st)"
  shows "\<exists>p'. RecyclePool_removeAt strategy idx (renderDataPool st) = Some p' \<and>
          RenderData_remove strategy idx st =
            Inr (st\<lparr>objects := (objects st)(live (renderDataPool st) ! idx :=
                                   clear (objects st (live (renderDataPool st) ! idx))),
                    renderDataPool := p'\<rparr>)"
proof -
  obtain p' where p': "RecyclePool_removeAt strategy idx (renderDataPool st) = Some p'"
    using removeAt_live[of idx "renderDataPool st" strategy] assms
    by (auto simp: pool_length_def)
  have "pool_data (renderDataPool st) ! idx = live (renderDataPool st) ! idx"
    using assms by (simp add: pool_data_def pool_length_def nth_append)
  then show ?thesis
    using assms p' by (simp add: RenderData_remove_def Let_def pool_data_def pool_length_def)
qed

text \<open>
  C6 (\<^verbatim>\<open>RenderData.add\<close>): the acquisition makes the pool one longer and returns a handle
  whose \<open>pooID\<close> is the length of the pool minus one, which is a position of the backing
  storage, and whose \<open>data\<close> is the instance stored at that position.
\<close>

theorem add_handle_position:
  "(case RenderData_add st of (h, st') \<Rightarrow>
      pool_length (renderDataPool st') = Suc (pool_length (renderDataPool st)) \<and>
      pooID h = pool_length (renderDataPool st') - 1 \<and>
      pooID h < length (pool_data (renderDataPool st')) \<and>
      pool_data (renderDataPool st') ! pooID h = data h)"
proof (cases "spare (renderDataPool st)")
  case Nil
  then show ?thesis
    by (simp add: RenderData_add_fresh pool_length_def pool_data_def)
next
  case (Cons ref rest)
  then show ?thesis
    by (simp add: RenderData_add_reuse pool_length_def pool_data_def nth_append)
qed

text \<open>Release followed by acquisition, for both compaction strategies.\<close>

lemma release_then_acquire:
  "(case RenderData_add st0 of (h1, st1) \<Rightarrow>
     (case RenderData_remove strategy (pooID h1) (st1\<lparr>objects := use (objects st1)\<rparr>) of
        Inl e \<Rightarrow> False
      | Inr st2 \<Rightarrow>
          (case RenderData_add st2 of (h2, st3) \<Rightarrow>
             data h2 = data h1 \<and> objects st3 (data h2) = new_RenderData)))"
proof -
  obtain h1 st1 where a1: "RenderData_add st0 = (h1, st1)"
    by (cases "RenderData_add st0")
  let ?L = "live (renderDataPool st0)"
  have "\<exists>rest. pooID h1 = length ?L \<and> live (renderDataPool st1) = ?L @ [data h1] \<and>
          spare (renderDataPool st1) = rest"
    using a1 by (cases "spare (renderDataPool st0)") (auto simp: RenderData_add_fresh RenderData_add_reuse)
  then obtain rest where id1: "pooID h1 = length ?L"
    and l1: "live (renderDataPool st1) = ?L @ [data h1]"
    and s1: "spare (renderDataPool st1) = rest" by blast
  let ?st1' = "st1\<lparr>objects := use (objects st1)\<rparr>"
  have valid: "pooID h1 < pool_length (renderDataPool ?st1')"
    by (simp add: pool_length_def id1 l1)
  have at: "live (renderDataPool ?st1') ! pooID h1 = data h1"
    by (simp add: id1 l1)
  obtain p' where rm: "RecyclePool_removeAt strategy (pooID h1) (renderDataPool ?st1') = Some p'"
    and r2: "RenderData_remove strategy (pooID h1) ?st1' =
        Inr (?st1'\<lparr>objects := (objects ?st1')(data h1 := clear (objects ?st1' (data h1))),
                  renderDataPool := p'\<rparr>)"
    using RenderData_remove_live[OF valid, of strategy] unfolding at by blast
  have sp: "spare p' = data h1 # rest"
    using removeAt_live[of "pooID h1" "renderDataPool ?st1'" strategy] rm valid at s1
    by (auto simp: pool_length_def)
  let ?st2 = "?st1'\<lparr>objects := (objects ?st1')(data h1 := clear (objects ?st1' (data h1))),
                  renderDataPool := p'\<rparr>"
  have a2: "RenderData_add ?st2 =
     (\<lparr>pooID = length (live p'), data = data h1\<rparr>,
      ?st2\<lparr>renderDataPool := \<lparr>live = live p' @ [data h1], spare = rest\<rparr>\<rparr>)"
    using RenderData_add_reuse[of ?st2 "data h1" rest] sp by simp
  show ?thesis
    using a2 by (simp add: a1 r2 clear_eq_new)
qed

text \<open>
  C5 (\<^verbatim>\<open>RenderData.remove\<close>): at a live position the release clears the instance stored
  there and then removes that slot from the pool, where it becomes spare. In the scenario
  acquire \<open>h1\<close>, release \<open>h1\<close>, acquire \<open>h2\<close>, whatever the consumer did to the objects
  while it held \<open>h1\<close> (\<open>use\<close>), the second handle refers to the instance of the first, and
  that instance is in the state of a fresh one: empty \<open>datas\<close> and \<open>indices\<close>, zero pivot,
  size and counts, no material, both dirty flags set.
\<close>

theorem remove_clears_and_releases:
  "(idx < pool_length (renderDataPool st) \<longrightarrow>
      (\<exists>p'. RecyclePool_removeAt strategy idx (renderDataPool st) = Some p' \<and>
            pool_length p' = pool_length (renderDataPool st) - 1 \<and>
            spare p' = live (renderDataPool st) ! idx # spare (renderDataPool st) \<and>
            RenderData_remove strategy idx st =
              Inr (st\<lparr>objects := (objects st)(live (renderDataPool st) ! idx :=
                                     clear (objects st (live (renderDataPool st) ! idx))),
                      renderDataPool := p'\<rparr>))) \<and>
   (case RenderData_add st0 of (h1, st1) \<Rightarrow>
     (case RenderData_remove strategy (pooID h1) (st1\<lparr>objects := use (objects st1)\<rparr>) of
        Inl e \<Rightarrow> False
      | Inr st2 \<Rightarrow>
          (case RenderData_add st2 of (h2, st3) \<Rightarrow>
             data h2 = data h1 \<and> objects st3 (data h2) = new_RenderData)))"
proof (intro conjI impI)
  assume v: "idx < pool_length (renderDataPool st)"
  from RenderData_remove_live[OF v, of strategy]
  obtain p' where rm: "RecyclePool_removeAt strategy idx (renderDataPool st) = Some p'"
    and r: "RenderData_remove strategy idx st =
              Inr (st\<lparr>objects := (objects st)(live (renderDataPool st) ! idx :=
                                     clear (objects st (live (renderDataPool st) ! idx))),
                      renderDataPool := p'\<rparr>)" by blast
  from removeAt_live[of idx "renderDataPool st" strategy] v rm
  have "spare p' = live (renderDataPool st) ! idx # spare (renderDataPool st)"
    and "pool_length p' = pool_length (renderDataPool st) - 1"
    by (auto simp: pool_length_def)
  with rm r show "\<exists>p'. RecyclePool_removeAt strategy idx (renderDataPool st) = Some p' \<and>
            pool_length p' = pool_length (renderDataPool st) - 1 \<and>
            spare p' = live (renderDataPool st) ! idx # spare (renderDataPool st) \<and>
            RenderData_remove strategy idx st =
              Inr (st\<lparr>objects := (objects st)(live (renderDataPool st) ! idx :=
                                     clear (objects st (live (renderDataPool st) ! idx))),
                      renderDataPool := p'\<rparr>)" by blast
next
  show "(case RenderData_add st0 of (h1, st1) \<Rightarrow>
     (case RenderData_remove strategy (pooID h1) (st1\<lparr>objects := use (objects st1)\<rparr>) of
        Inl e \<Rightarrow> False
      | Inr st2 \<Rightarrow>
          (case RenderData_add st2 of (h2, st3) \<Rightarrow>
             data h2 = data h1 \<and> objects st3 (data h2) = new_RenderData)))"
    by (rule release_then_acquire)
qed

theorem remove_clears_and_releases_witness:
  "0 < pool_length (renderDataPool one_live_used) \<and>
   RenderData_remove SwapWithLast 0 one_live_used =
     Inr \<lparr>objects = (\<lambda>ref. if ref = 0 then new_RenderData else new_RenderData\<lparr>uvDirty := False\<rparr>),
          next_ref = 1, renderDataPool = \<lparr>live = [], spare = [0]\<rparr>\<rparr>"
  using remove_clears_and_releases [where idx = 0 and strategy = SwapWithLast and st = one_live_used
                                      and ?st0.0 = one_live_used and use = id]
  by (auto simp: pool_length_def RecyclePool_removeAt_def clear_eq_new fun_eq_iff)

section \<open>Dirty flags\<close>

text \<open>
  C8 (no operation clears a dirty flag): the setter, \<^verbatim>\<open>updateSizeNPivot\<close> and \<^verbatim>\<open>clear\<close>
  leave a flag that was set on the instance set; the static \<^verbatim>\<open>add\<close>, and the static
  \<^verbatim>\<open>remove\<close> when it returns, leave a flag that was set on any object set.
\<close>

theorem operations_keep_dirty:
  "keeps_dirty rd (fst (set_dataLength add rm n (rd, p))) \<and>
   keeps_dirty rd (updateSizeNPivot w h px py rd) \<and>
   keeps_dirty rd (clear rd) \<and>
   (\<forall>ref. keeps_dirty (objects st ref) (objects (snd (RenderData_add st)) ref)) \<and>
   (\<forall>st'. RenderData_remove strategy idx st = Inr st' \<longrightarrow>
      (\<forall>ref. keeps_dirty (objects st ref) (objects st' ref)))"
proof (intro conjI allI impI)
  show "keeps_dirty rd (fst (set_dataLength add rm n (rd, p)))"
    by (simp add: keeps_dirty_def set_dataLength_eq)
  show "keeps_dirty rd (updateSizeNPivot w h px py rd)"
    by (simp add: keeps_dirty_def updateSizeNPivot_def)
  show "keeps_dirty rd (clear rd)"
    by (simp add: keeps_dirty_def clear_def)
  show "keeps_dirty (objects st ref) (objects (snd (RenderData_add st)) ref)" for ref
    by (cases "spare (renderDataPool st)")
       (simp_all add: RenderData_add_fresh RenderData_add_reuse keeps_dirty_def new_RenderData_def)
  show "keeps_dirty (objects st ref) (objects st' ref)"
    if "RenderData_remove strategy idx st = Inr st'" for st' ref
    using that
    by (auto simp: RenderData_remove_def Let_def keeps_dirty_def clear_def
             split: if_splits option.splits)
qed

theorem operations_keep_dirty_witness:
  "uvDirty fresh_instance \<and> vertDirty fresh_instance \<and>
   uvDirty (fst (set_dataLength default_add no_removeAt 2 (fresh_instance, ()))) \<and>
   vertDirty (fst (set_dataLength default_add no_removeAt 2 (fresh_instance, ()))) \<and>
   uvDirty (updateSizeNPivot (Num 10) (Num 10) (Num 0) (Num 0) fresh_instance) \<and>
   vertDirty (updateSizeNPivot (Num 10) (Num 10) (Num 0) (Num 0) fresh_instance) \<and>
   uvDirty (clear fresh_instance) \<and> vertDirty (clear fresh_instance) \<and>
   uvDirty (objects one_live 0) \<and> vertDirty (objects one_live 0) \<and>
   uvDirty (objects (snd (RenderData_add one_live)) 0) \<and>
   vertDirty (objects (snd (RenderData_add one_live)) 0) \<and>
   (\<exists>st'. RenderData_remove ShiftLeft 0 one_live = Inr st' \<and>
          uvDirty (objects st' 0) \<and> vertDirty (objects st' 0))"
proof -
  have flags: "uvDirty fresh_instance" "vertDirty fresh_instance"
    "uvDirty (objects one_live 0)" "vertDirty (objects one_live 0)"
    by (simp_all add: new_RenderData_def)
  obtain st' where r: "RenderData_remove ShiftLeft 0 one_live = Inr st'"
    by (simp add: RenderData_remove_def pool_data_def RecyclePool_removeAt_def)
  show ?thesis
    using flags r
      operations_keep_dirty [where rd = fresh_instance and add = default_add and rm = no_removeAt
             and n = 2 and p = "()" and w = "Num 10" and h = "Num 10" and px = "Num 0" and py = "Num 0"
             and st = one_live and strategy = ShiftLeft and idx = 0]
    unfolding keeps_dirty_def by blast
qed

section \<open>Acquisition does not reset\<close>

text \<open>
  C9 (\<^verbatim>\<open>RenderData.add\<close> performs no reset): the acquisition writes no object other than
  the one it hands out; when the pool has a spare instance, the handle refers to it and no
  object is written at all, so the instance has the state in which the pool stored it;
  only when the pool has none does the handle refer to a newly constructed instance.
\<close>

theorem add_does_not_reset:
  "(case RenderData_add st of (h, st') \<Rightarrow>
      (\<forall>ref. ref \<noteq> data h \<longrightarrow> objects st' ref = objects st ref) \<and>
      (spare (renderDataPool st) \<noteq> [] \<longrightarrow>
         data h = hd (spare (renderDataPool st)) \<and> objects st' = objects st) \<and>
      (spare (renderDataPool st) = [] \<longrightarrow>
         data h = next_ref st \<and> objects st' (data h) = new_RenderData))"
  by (cases "spare (renderDataPool st)")
     (simp_all add: RenderData_add_fresh RenderData_add_reuse)

theorem add_does_not_reset_witness:
  "spare (renderDataPool one_spare_used) \<noteq> [] \<and>
   data (fst (RenderData_add one_spare_used)) = 0 \<and>
   \<not> uvDirty (objects (snd (RenderData_add one_spare_used)) (data (fst (RenderData_add one_spare_used)))) \<and>
   spare (renderDataPool one_live_used) = [] \<and>
   data (fst (RenderData_add one_live_used)) = 1 \<and>
   objects (snd (RenderData_add one_live_used)) 1 = new_RenderData \<and>
   objects (snd (RenderData_add one_live_used)) 0 = objects one_live_used 0"
  using add_does_not_reset [of one_spare_used] add_does_not_reset [of one_live_used]
  by (auto simp: split_beta)

section \<open>The index array\<close>

text \<open>
  C10 (\<open>indices\<close> is always empty): every state that an instance reaches has empty
  \<open>indices\<close>, and the static \<^verbatim>\<open>add\<close> and \<^verbatim>\<open>remove\<close> keep the indices of all objects
  empty.
\<close>

theorem indices_always_empty:
  "(reachable add rm rd \<longrightarrow> indices rd = []) \<and>
   ((\<forall>ref. indices (objects st ref) = []) \<longrightarrow>
      (\<forall>ref. indices (objects (snd (RenderData_add st)) ref) = [])) \<and>
   ((\<forall>ref. indices (objects st ref) = []) \<and> RenderData_remove strategy idx st = Inr st' \<longrightarrow>
      (\<forall>ref. indices (objects st' ref) = []))"
proof (intro conjI impI)
  assume "reachable add rm rd"
  then show "indices rd = []"
    by (induction rule: reachable.induct)
       (simp_all add: new_RenderData_def set_dataLength_eq updateSizeNPivot_def clear_def)
next
  assume "\<forall>ref. indices (objects st ref) = []"
  then show "\<forall>ref. indices (objects (snd (RenderData_add st)) ref) = []"
    by (cases "spare (renderDataPool st)")
       (simp_all add: RenderData_add_fresh RenderData_add_reuse new_RenderData_def)
next
  assume "(\<forall>ref. indices (objects st ref) = []) \<and> RenderData_remove strategy idx st = Inr st'"
  then show "\<forall>ref. indices (objects st' ref) = []"
    by (auto simp: RenderData_remove_def Let_def clear_def split: if_splits option.splits)
qed

theorem indices_always_empty_witness:
  "reachable default_add no_removeAt
     (updateSizeNPivot (Num 10) (Num 10) (Num 0) (Num 0)
        (fst (set_dataLength default_add no_removeAt 3 (fresh_instance, ())))) \<and>
   indices (updateSizeNPivot (Num 10) (Num 10) (Num 0) (Num 0)
        (fst (set_dataLength default_add no_removeAt 3 (fresh_instance, ())))) = [] \<and>
   (\<forall>ref. indices (objects one_live_used ref) = []) \<and>
   (\<forall>ref. indices (objects (snd (RenderData_add one_live_used)) ref) = []) \<and>
   (\<exists>st'. RenderData_remove SwapWithLast 0 one_live_used = Inr st' \<and>
          (\<forall>ref. indices (objects st' ref) = []))"
proof -
  let ?rd = "updateSizeNPivot (Num 10) (Num 10) (Num 0) (Num 0)
        (fst (set_dataLength default_add no_removeAt 3 (fresh_instance, ())))"
  have re: "reachable default_add no_removeAt ?rd"
    by (intro reachable.updated reachable.resized reachable.fresh)
  have inv: "\<forall>ref. indices (objects one_live_used ref) = []"
    by (simp add: new_RenderData_def)
  obtain st' where r: "RenderData_remove SwapWithLast 0 one_live_used = Inr st'"
    by (simp add: RenderData_remove_def pool_data_def RecyclePool_removeAt_def)
  note T = indices_always_empty [where add = default_add and rm = no_removeAt and rd = ?rd
             and st = one_live_used and strategy = SwapWithLast and idx = 0 and st' = st']
  have i1: "indices ?rd = []"
    by (rule mp [OF conjunct1 [OF T] re])
  have i2: "\<forall>ref. indices (objects (snd (RenderData_add one_live_used)) ref) = []"
    by (rule mp [OF conjunct1 [OF conjunct2 [OF T]] inv])
  have i3: "\<forall>ref. indices (objects st' ref) = []"
    by (rule mp [OF conjunct2 [OF conjunct2 [OF T]] conjI [OF inv r]])
  show ?thesis
  proof (intro conjI exI [where x = st'])
    show "reachable default_add no_removeAt ?rd" by (rule re)
    show "indices ?rd = []" by (rule i1)
    show "\<forall>ref. indices (objects one_live_used ref) = []" by (rule inv)
    show "\<forall>ref. indices (objects (snd (RenderData_add one_live_used)) ref) = []" by (rule i2)
    show "RenderData_remove SwapWithLast 0 one_live_used = Inr st'" by (rule r)
    show "\<forall>ref. indices (objects st' ref) = []" by (rule i3)
  qed
qed

end
